theory Spec2Isabelle
  imports Main
begin

section \<open>The reference-counted smart pointer \<open>proton::counted_ptr\<close> (facade.hpp)\<close>

text \<open>
  A \<open>counted_ptr<T>\<close> has one data member, the raw pointer \<open>ptr_\<close> (facade.hpp, line 154).
  A raw pointer \<open>T*\<close> is an address, the null pointer is \<open>0\<close> as the source writes it.

  The members of \<open>counted_ptr\<close> call the free functions \<open>incref\<close> and \<open>decref\<close>.
  facade.hpp declares them (lines 164-165 and 258-259) and documents what a call means: a call
  of \<open>incref\<close> takes a new reference to the object (\<open>new_reference\<close>, lines 229-234), a call
  of \<open>decref\<close> removes a reference (lines 202 and 209). Their bodies are in no file of
  \<open>src/\<close>, so the model does not run them: it records every call with its argument, in
  the order the members make them.
\<close>

type_synonym ptr = nat

datatype call = Incref ptr | Decref ptr

text \<open>
  \<open>operator=\<close> and \<open>reset\<close> work on an unnamed temporary \<open>counted_ptr\<close> and on
  \<open>*this\<close>, and \<open>p = p\<close> passes the same object twice, so the \<open>counted_ptr\<close> objects
  live in a store: \<open>Var n\<close> is the object the program names, \<open>Tmp\<close> the temporary of the
  running member function.
\<close>

datatype cell = Var nat | Tmp

record heap =
  ptrs :: "cell \<Rightarrow> ptr"
  calls :: "call list"

definition incref :: "ptr \<Rightarrow> heap \<Rightarrow> heap" where
  "incref p h = h\<lparr>calls := calls h @ [Incref p]\<rparr>"

definition decref :: "ptr \<Rightarrow> heap \<Rightarrow> heap" where
  "decref p h = h\<lparr>calls := calls h @ [Decref p]\<rparr>"

text \<open>
  \<^verbatim>\<open>explicit counted_ptr(T *p = 0, bool add_ref = true) : ptr_(p) { if (p && add_ref) incref(ptr_); }\<close>
\<close>

definition construct :: "cell \<Rightarrow> ptr \<Rightarrow> bool \<Rightarrow> heap \<Rightarrow> heap" where
  "construct c p add_ref h =
     (let h1 = h\<lparr>ptrs := (ptrs h)(c := p)\<rparr>
      in if p \<noteq> 0 \<and> add_ref then incref (ptrs h1 c) h1 else h1)"

text \<open>
  \<^verbatim>\<open>counted_ptr(const counted_ptr<T>& p) : ptr_(p.ptr_) { incref(ptr_); }\<close>
\<close>

definition copy_construct :: "cell \<Rightarrow> cell \<Rightarrow> heap \<Rightarrow> heap" where
  "copy_construct c p h =
     (let h1 = h\<lparr>ptrs := (ptrs h)(c := ptrs h p)\<rparr>
      in incref (ptrs h1 c) h1)"

text \<open>
  \<^verbatim>\<open>~counted_ptr() { decref(ptr_); }\<close>
\<close>

definition destroy :: "cell \<Rightarrow> heap \<Rightarrow> heap" where
  "destroy c h = decref (ptrs h c) h"

text \<open>
  \<^verbatim>\<open>void swap(counted_ptr& x) { std::swap(ptr_, x.ptr_); }\<close>
\<close>

definition swap_ptr :: "cell \<Rightarrow> cell \<Rightarrow> heap \<Rightarrow> heap" where
  "swap_ptr c x h =
     (let tmp = ptrs h c;
          h1 = h\<lparr>ptrs := (ptrs h)(c := ptrs h x)\<rparr>
      in h1\<lparr>ptrs := (ptrs h1)(x := tmp)\<rparr>)"

text \<open>
  \<^verbatim>\<open>T* get() const { return ptr_; }\<close>,
  \<^verbatim>\<open>operator bool() const { return ptr_; }\<close>,
  \<^verbatim>\<open>bool operator!() const { return !ptr_; }\<close>
\<close>

definition get :: "cell \<Rightarrow> heap \<Rightarrow> ptr" where
  "get c h = ptrs h c"

definition to_bool :: "cell \<Rightarrow> heap \<Rightarrow> bool" where
  "to_bool c h = (ptrs h c \<noteq> 0)"

definition op_not :: "cell \<Rightarrow> heap \<Rightarrow> bool" where
  "op_not c h = (\<not> (ptrs h c \<noteq> 0))"

text \<open>
  \<^verbatim>\<open>counted_ptr<T>& operator=(const counted_ptr<T>& p) {
      counted_ptr<T>(p.get()).swap(*this);
      return *this;
  }\<close>
  The temporary is built from \<open>p.get()\<close> with \<open>add_ref = true\<close>, swapped with \<open>*this\<close>, and
  destroyed at the end of the full expression.
\<close>

definition assign :: "nat \<Rightarrow> nat \<Rightarrow> heap \<Rightarrow> heap" where
  "assign this p h =
     destroy Tmp (swap_ptr Tmp (Var this) (construct Tmp (get (Var p) h) True h))"

text \<open>
  \<^verbatim>\<open>void reset(T* p=0, bool add_ref = true) {
      counted_ptr<T>(p, add_ref).swap(*this);
  }\<close>
\<close>

definition reset :: "nat \<Rightarrow> ptr \<Rightarrow> bool \<Rightarrow> heap \<Rightarrow> heap" where
  "reset this p add_ref h =
     destroy Tmp (swap_ptr Tmp (Var this) (construct Tmp p add_ref h))"

text \<open>
  \<^verbatim>\<open>T* release() {
      T* ret = ptr_;
      ptr_ = 0;
      return ret;
  }\<close>
\<close>

definition release :: "cell \<Rightarrow> heap \<Rightarrow> ptr \<times> heap" where
  "release c h =
     (let ret = ptrs h c
      in (ret, h\<lparr>ptrs := (ptrs h)(c := 0)\<rparr>))"

text \<open>
  The reference count of the object at address \<open>x\<close> after a sequence of calls, from its count
  \<open>r\<close> before them: every \<open>incref\<close> of \<open>x\<close> adds one reference and every \<open>decref\<close> of \<open>x\<close>
  removes one. No object lives at the null pointer: the copy constructor and the destructor
  call \<open>incref\<close> and \<open>decref\<close> on a \<open>ptr_\<close> that may be null (a default-constructed
  \<open>counted_ptr\<close> is destroyed by \<open>decref(0)\<close>), so a call on the null pointer changes no count.
  The count is an \<open>int\<close>, as the member \<open>refcount_\<close> of class \<open>counted\<close> is (line 251), without
  a bound: signed overflow is undefined in C++ and no claim below depends on it. What
  \<open>decref\<close> does to an object whose count reaches zero is outside facade.hpp and outside the
  model.
\<close>

fun refcount :: "int \<Rightarrow> call list \<Rightarrow> ptr \<Rightarrow> int" where
  "refcount r [] x = r"
| "refcount r (Incref y # cs) x = refcount (if y = x \<and> y \<noteq> 0 then r + 1 else r) cs x"
| "refcount r (Decref y # cs) x = refcount (if y = x \<and> y \<noteq> 0 then r - 1 else r) cs x"

text \<open>The calls made between the heap \<open>h\<close> and the later heap \<open>h'\<close>.\<close>

definition calls_since :: "heap \<Rightarrow> heap \<Rightarrow> call list" where
  "calls_since h h' = drop (length (calls h)) (calls h')"

text \<open>
  A concrete heap for the examples: object 0 holds the address 5, object 1 the address 7, every
  other \<open>counted_ptr\<close> is empty.
\<close>

definition two_owners :: heap where
  "two_owners = \<lparr>ptrs = (\<lambda>c. 0)(Var 0 := 5, Var 1 := 7), calls = []\<rparr>"

section \<open>Channel allocation on a connection (engine core)\<close>

text \<open>
  Modelled from the spec: the protocol engine behind \<open>proton::connection\<close> and
  \<open>proton::session\<close> is missing from \<open>src/\<close> (session.hpp only declares \<open>session::open\<close>
  and \<open>session::close\<close>; the connection class and the engine's tables are in no file). The
  definitions of this section follow the spec's sections 3 (data model), 4.2 (endpoint state
  machine), 4.3 (connection) and 7 (errors), sentence by sentence; each definition quotes the
  sentence it renders. Fields of the data model that no operation below reads (max-frame-size,
  idle-timeout, a session's links and windows) are left out.
\<close>

text \<open>
  Modelled from the spec: the states of 4.2 ("States: \<open>UNINIT\<close>, \<open>ACTIVE\<close>, \<open>CLOSED\<close>"), the
  error taxonomy of section 7, the performatives of the glossary, and the events of section 3
  ("tagged variant over {endpoint-state-changed, ..., transport-error}; carries the affected
  entity's identity and new state"; only the two kinds the operations below emit).
\<close>

datatype endpoint_state = UNINIT | ACTIVE | CLOSED

datatype error =
  MalformedFrameError | InvalidStateError | ResourceLimitError | NoCreditError | NameConflictError

datatype performative =
  P_open | P_begin | P_attach | P_flow | P_transfer | P_disposition | P_detach | P_end | P_close

datatype entity = Connection_entity | Session_entity nat

datatype event = Endpoint_state_changed entity endpoint_state | Transport_error

text \<open>
  Modelled from the spec: "Session: ... local/remote state, channel number (unique per
  connection at a time)".
\<close>

record session =
  channel :: nat
  s_local :: endpoint_state
  s_remote :: endpoint_state

text \<open>
  Modelled from the spec: "Connection: identity, local/remote state (UNINIT, ACTIVE, CLOSED),
  ordered collection of Sessions, outbound frame queue"; \<open>channel_max\<close> is "the negotiated
  channel-max" of section 4.3, \<open>events\<close> the event queue of sections 2 and 6. A frame of the
  outbound queue is a channel number and a performative.
\<close>

record connection =
  c_local :: endpoint_state
  c_remote :: endpoint_state
  sessions :: "session list"
  outbound :: "(nat \<times> performative) list"
  events :: "event list"
  channel_max :: nat

text \<open>
  Modelled from the spec: a connection as created, before any operation: both states UNINIT
  ("local UNINIT\<rightarrow>ACTIVE" is the first transition), no session, empty queues.
\<close>

definition new_connection :: "nat \<Rightarrow> connection" where
  "new_connection cmax =
     \<lparr>c_local = UNINIT, c_remote = UNINIT, sessions = [], outbound = [], events = [],
      channel_max = cmax\<rparr>"

subsection \<open>The endpoint state machine (spec 4.2)\<close>

text \<open>
  Modelled from the spec: "\<open>open()\<close> (local UNINIT\<rightarrow>ACTIVE, emits outbound
  open-performative)", "Calling \<open>open()\<close> twice is a no-op after the first". The result is the
  new local state and whether the open performative is emitted.
\<close>

fun ep_open :: "endpoint_state \<Rightarrow> endpoint_state \<times> bool" where
  "ep_open UNINIT = (ACTIVE, True)"
| "ep_open ACTIVE = (ACTIVE, False)"
| "ep_open CLOSED = (CLOSED, False)"

text \<open>
  Modelled from the spec: "\<open>close()\<close> (local ACTIVE\<rightarrow>CLOSED, emits outbound
  close-performative)", "calling \<open>close()\<close> before \<open>open()\<close> fails with
  \<open>InvalidStateError\<close>", "calling \<open>close()\<close> on an endpoint already in CLOSED state is a
  no-op and emits no duplicate frame".
\<close>

fun ep_close :: "endpoint_state \<Rightarrow> error + endpoint_state \<times> bool" where
  "ep_close UNINIT = Inl InvalidStateError"
| "ep_close ACTIVE = Inr (CLOSED, True)"
| "ep_close CLOSED = Inr (CLOSED, False)"

text \<open>
  Modelled from the spec: "\<open>remote-open-received\<close> (remote UNINIT\<rightarrow>ACTIVE, emits event)",
  "\<open>remote-close-received\<close> (remote ACTIVE\<rightarrow>CLOSED, emits event)". In any other remote state
  the frame is a protocol violation: \<open>None\<close>.
\<close>

fun ep_remote_open :: "endpoint_state \<Rightarrow> endpoint_state option" where
  "ep_remote_open UNINIT = Some ACTIVE"
| "ep_remote_open ACTIVE = None"
| "ep_remote_open CLOSED = None"

fun ep_remote_close :: "endpoint_state \<Rightarrow> endpoint_state option" where
  "ep_remote_close UNINIT = None"
| "ep_remote_close ACTIVE = Some CLOSED"
| "ep_remote_close CLOSED = None"

text \<open>
  Modelled from the spec: "Receiving an inbound close performative overrides all further local
  frame sends except the final close-confirmation".
\<close>

definition enqueue :: "nat \<times> performative \<Rightarrow> connection \<Rightarrow> connection" where
  "enqueue f c =
     (if c_remote c = CLOSED \<and> snd f \<noteq> P_close then c
      else c\<lparr>outbound := outbound c @ [f]\<rparr>)"

definition emit :: "event \<Rightarrow> connection \<Rightarrow> connection" where
  "emit e c = c\<lparr>events := events c @ [e]\<rparr>"

text \<open>
  Modelled from the spec: "Protocol violations detected by the Frame Codec or state machine are
  surfaced as a \<open>transport-error\<close> event and force the connection into CLOSED".
\<close>

definition protocol_error :: "connection \<Rightarrow> connection" where
  "protocol_error c = emit Transport_error (c\<lparr>c_local := CLOSED, c_remote := CLOSED\<rparr>)"

subsection \<open>Sessions of a connection (spec 4.3)\<close>

text \<open>
  Modelled from the spec: the session table of the connection ("ordered collection of
  Sessions"), kept in insertion order and addressed by channel number.
\<close>

definition used_channels :: "connection \<Rightarrow> nat list" where
  "used_channels c = map channel (sessions c)"

definition find_session :: "nat \<Rightarrow> connection \<Rightarrow> session option" where
  "find_session ch c = find (\<lambda>s. channel s = ch) (sessions c)"

definition map_session :: "nat \<Rightarrow> (session \<Rightarrow> session) \<Rightarrow> connection \<Rightarrow> connection" where
  "map_session ch f c =
     c\<lparr>sessions := map (\<lambda>s. if channel s = ch then f s else s) (sessions c)\<rparr>"

text \<open>
  Modelled from the spec: "The endpoint is considered fully torn down only when both local and
  remote reach CLOSED"; "Channel numbers are unique among open Sessions on a Connection at any
  instant; may be reused after a Session fully closes"; the connection "does not erase them
  until each completes". A session stays in the table until it is fully closed and is erased
  then.
\<close>

definition fully_closed :: "session \<Rightarrow> bool" where
  "fully_closed s = (s_local s = CLOSED \<and> s_remote s = CLOSED)"

definition erase_closed :: "connection \<Rightarrow> connection" where
  "erase_closed c = c\<lparr>sessions := filter (\<lambda>s. \<not> fully_closed s) (sessions c)\<rparr>"

text \<open>
  Modelled from the spec: "Owns channel-number allocation (smallest unused non-negative
  integer). \<open>create_session() -> Session\<close> allocates a channel and an UNINIT session; fails
  with \<open>ResourceLimitError\<close> if the negotiated channel-max is exceeded". The channels
  \<open>0 .. channel_max\<close> are tried in increasing order. The contract names no other failure, so
  the connection's own state is not consulted.
\<close>

definition create_session :: "connection \<Rightarrow> error + nat \<times> connection" where
  "create_session c =
     (case find (\<lambda>n. n \<notin> set (used_channels c)) [0 ..< Suc (channel_max c)] of
        None \<Rightarrow> Inl ResourceLimitError
      | Some ch \<Rightarrow>
          Inr (ch, c\<lparr>sessions := sessions c @
                      [\<lparr>channel = ch, s_local = UNINIT, s_remote = UNINIT\<rparr>]\<rparr>))"

text \<open>
  Modelled from the spec: \<open>open()\<close> and \<open>close()\<close> of the session on channel \<open>ch\<close> are
  the state machine of 4.2 with the performatives begin and end ("Performative: ... open, begin,
  attach, flow, transfer, disposition, detach, end, close"). A channel with no session in the
  table is caller misuse: "\<open>InvalidStateError\<close> (caller misuse ...; recoverable, returned to
  caller, no state change)".
\<close>

definition session_open :: "nat \<Rightarrow> connection \<Rightarrow> error + connection" where
  "session_open ch c =
     (case find_session ch c of
        None \<Rightarrow> Inl InvalidStateError
      | Some s \<Rightarrow>
          (case ep_open (s_local s) of
             (st, True) \<Rightarrow> Inr (enqueue (ch, P_begin) (map_session ch (\<lambda>s. s\<lparr>s_local := st\<rparr>) c))
           | (st, False) \<Rightarrow> Inr c))"

definition session_close :: "nat \<Rightarrow> connection \<Rightarrow> error + connection" where
  "session_close ch c =
     (case find_session ch c of
        None \<Rightarrow> Inl InvalidStateError
      | Some s \<Rightarrow>
          (case ep_close (s_local s) of
             Inl e \<Rightarrow> Inl e
           | Inr (st, True) \<Rightarrow>
               Inr (erase_closed
                      (enqueue (ch, P_end) (map_session ch (\<lambda>s. s\<lparr>s_local := st\<rparr>) c)))
           | Inr (st, False) \<Rightarrow> Inr c))"

text \<open>
  Modelled from the spec: the peer's begin and end for the session on channel \<open>ch\<close> are
  \<open>remote-open-received\<close> and \<open>remote-close-received\<close> of 4.2; each "emits event", an event
  that "carries the affected entity's identity and new state". A frame for a channel with no
  session, or in a remote state that 4.2 gives no transition for, is a protocol violation.
\<close>

definition remote_begin :: "nat \<Rightarrow> connection \<Rightarrow> connection" where
  "remote_begin ch c =
     (case find_session ch c of
        None \<Rightarrow> protocol_error c
      | Some s \<Rightarrow>
          (case ep_remote_open (s_remote s) of
             None \<Rightarrow> protocol_error c
           | Some st \<Rightarrow>
               emit (Endpoint_state_changed (Session_entity ch) st)
                 (map_session ch (\<lambda>s. s\<lparr>s_remote := st\<rparr>) c)))"

definition remote_end :: "nat \<Rightarrow> connection \<Rightarrow> connection" where
  "remote_end ch c =
     (case find_session ch c of
        None \<Rightarrow> protocol_error c
      | Some s \<Rightarrow>
          (case ep_remote_close (s_remote s) of
             None \<Rightarrow> protocol_error c
           | Some st \<Rightarrow>
               erase_closed
                 (emit (Endpoint_state_changed (Session_entity ch) st)
                    (map_session ch (\<lambda>s. s\<lparr>s_remote := st\<rparr>) c))))"

subsection \<open>The connection endpoint\<close>

text \<open>
  Modelled from the spec: the connection's own \<open>open()\<close> is the state machine of 4.2 with the
  performative open, sent on channel 0.
\<close>

definition conn_open :: "connection \<Rightarrow> connection" where
  "conn_open c =
     (case ep_open (c_local c) of
        (st, True) \<Rightarrow> enqueue (0, P_open) (c\<lparr>c_local := st\<rparr>)
      | (st, False) \<Rightarrow> c)"

text \<open>
  Modelled from the spec: "Connection-level \<open>close()\<close> implicitly initiates close on all owned
  Sessions (cascading local close) but does not erase them until each completes". The cascade
  calls the session's \<open>close()\<close> for every channel of the table; a session that was never
  opened refuses it and is left as it is.
\<close>

definition close_or_skip :: "connection \<Rightarrow> nat \<Rightarrow> connection" where
  "close_or_skip c ch = (case session_close ch c of Inl e \<Rightarrow> c | Inr c' \<Rightarrow> c')"

definition cascade_close :: "connection \<Rightarrow> connection" where
  "cascade_close c = foldl close_or_skip c (used_channels c)"

definition conn_close :: "connection \<Rightarrow> error + connection" where
  "conn_close c =
     (case ep_close (c_local c) of
        Inl e \<Rightarrow> Inl e
      | Inr (st, True) \<Rightarrow> Inr (enqueue (0, P_close) ((cascade_close c)\<lparr>c_local := st\<rparr>))
      | Inr (st, False) \<Rightarrow> Inr c)"

text \<open>
  Modelled from the spec: the peer's open and close for the connection, as
  \<open>remote-open-received\<close> and \<open>remote-close-received\<close> of 4.2.
\<close>

definition conn_remote_open :: "connection \<Rightarrow> connection" where
  "conn_remote_open c =
     (case ep_remote_open (c_remote c) of
        None \<Rightarrow> protocol_error c
      | Some st \<Rightarrow> emit (Endpoint_state_changed Connection_entity st) (c\<lparr>c_remote := st\<rparr>))"

definition conn_remote_close :: "connection \<Rightarrow> connection" where
  "conn_remote_close c =
     (case ep_remote_close (c_remote c) of
        None \<Rightarrow> protocol_error c
      | Some st \<Rightarrow> emit (Endpoint_state_changed Connection_entity st) (c\<lparr>c_remote := st\<rparr>))"

subsection \<open>Sequences of operations\<close>

text \<open>
  Modelled from the spec: the operations of the application ("\<open>open/close\<close> per endpoint,
  \<open>create_session\<close>") and the frames of the peer that touch a connection's sessions. An
  operation that fails returns its error and changes nothing ("recoverable, returned to caller,
  no state change"), so a sequence goes on from the state before it.
\<close>

datatype engine_op =
  Conn_open | Conn_close | Conn_remote_open | Conn_remote_close
| Create_session | Session_open nat | Session_close nat | Remote_begin nat | Remote_end nat

fun apply_op :: "engine_op \<Rightarrow> connection \<Rightarrow> error + connection" where
  "apply_op Conn_open c = Inr (conn_open c)"
| "apply_op Conn_close c = conn_close c"
| "apply_op Conn_remote_open c = Inr (conn_remote_open c)"
| "apply_op Conn_remote_close c = Inr (conn_remote_close c)"
| "apply_op Create_session c = (case create_session c of Inl e \<Rightarrow> Inl e | Inr (ch, c') \<Rightarrow> Inr c')"
| "apply_op (Session_open ch) c = session_open ch c"
| "apply_op (Session_close ch) c = session_close ch c"
| "apply_op (Remote_begin ch) c = Inr (remote_begin ch c)"
| "apply_op (Remote_end ch) c = Inr (remote_end ch c)"

definition step :: "connection \<Rightarrow> engine_op \<Rightarrow> connection" where
  "step c x = (case apply_op x c of Inl e \<Rightarrow> c | Inr c' \<Rightarrow> c')"

definition run :: "engine_op list \<Rightarrow> connection \<Rightarrow> connection" where
  "run xs c = foldl step c xs"

subsection \<open>Concrete states for the examples\<close>

text \<open>
  Three states of a connection with the sessions 0 and 1, reached by running the operations on
  a new connection with channel-max 1: with session 0 opened by both sides and ended by the
  peer; with session 0 opened by both sides and closed locally; with session 0 fully closed and
  a third session created after it.
\<close>

definition remote_ended :: connection where
  "remote_ended =
     run [Create_session, Create_session, Session_open 0, Remote_begin 0, Remote_end 0]
       (new_connection 1)"

definition locally_closed :: connection where
  "locally_closed =
     run [Create_session, Create_session, Session_open 0, Remote_begin 0, Session_close 0]
       (new_connection 1)"

definition reused :: connection where
  "reused =
     run [Create_session, Create_session, Session_open 0, Remote_begin 0, Session_close 0,
          Remote_end 0, Create_session]
       (new_connection 1)"

section \<open>Properties of \<open>counted_ptr\<close>\<close>

subsection \<open>Reference counts over recorded calls\<close>

lemma refcount_append: "refcount r (cs @ ds) x = refcount (refcount r cs x) ds x"
  by (induction r cs x rule: refcount.induct) simp_all

lemma refcount_decref_null: "refcount r (cs @ [Decref 0]) x = refcount r cs x"
  by (simp add: refcount_append)

lemma refcount_incref_decref: "refcount r (cs @ [Incref a, Decref a]) x = refcount r cs x"
  by (simp add: refcount_append)

lemma refcount_commute:
  "refcount r (cs @ [Incref a, Decref b]) x = refcount r (cs @ [Decref b, Incref a]) x"
  by (simp add: refcount_append)

subsection \<open>What each member does to the store and to the record of calls\<close>

lemma release_eq: "release p h = (ptrs h p, h\<lparr>ptrs := (ptrs h)(p := 0)\<rparr>)"
  by (simp add: release_def)

lemma calls_destroy: "calls (destroy c h) = calls h @ [Decref (ptrs h c)]"
  by (simp add: destroy_def decref_def)

lemma ptrs_destroy: "ptrs (destroy c h) = ptrs h"
  by (simp add: destroy_def decref_def)

lemma calls_construct:
  "calls (construct c p True h) = calls h @ (if p \<noteq> 0 then [Incref p] else [])"
  by (simp add: construct_def incref_def Let_def)

lemma ptrs_construct: "ptrs (construct c p add_ref h) = (ptrs h)(c := p)"
  by (simp add: construct_def incref_def Let_def)

lemma calls_swap_ptr: "calls (swap_ptr c x h) = calls h"
  by (simp add: swap_ptr_def Let_def)

lemma ptrs_swap_ptr: "ptrs (swap_ptr c x h) = (ptrs h)(c := ptrs h x, x := ptrs h c)"
  by (simp add: swap_ptr_def Let_def)

lemma calls_assign:
  "calls (assign p q h) =
     calls h @ (if ptrs h (Var q) \<noteq> 0 then [Incref (ptrs h (Var q))] else [])
       @ [Decref (ptrs h (Var p))]"
  by (simp add: assign_def calls_destroy ptrs_swap_ptr calls_swap_ptr ptrs_construct
      calls_construct get_def)

lemma ptrs_assign:
  "ptrs (assign p q h) (Var v) = (if v = p then ptrs h (Var q) else ptrs h (Var v))"
  by (simp add: assign_def ptrs_destroy ptrs_swap_ptr ptrs_construct get_def)

lemma calls_rebuild:
  "calls (construct (Var p) (ptrs h (Var q)) True (destroy (Var p) h)) =
     calls h @ [Decref (ptrs h (Var p))]
       @ (if ptrs h (Var q) \<noteq> 0 then [Incref (ptrs h (Var q))] else [])"
  by (simp add: calls_construct calls_destroy)

lemma refcount_assign_rebuild:
  "refcount r (calls (assign p q h)) x =
   refcount r (calls (construct (Var p) (ptrs h (Var q)) True (destroy (Var p) h))) x"
proof -
  define incs where "incs = (if ptrs h (Var q) \<noteq> 0 then [Incref (ptrs h (Var q))] else [])"
  define dec where "dec = Decref (ptrs h (Var p))"
  have a: "calls (assign p q h) = calls h @ incs @ [dec]"
    by (simp add: calls_assign incs_def dec_def)
  have b: "calls (construct (Var p) (ptrs h (Var q)) True (destroy (Var p) h))
             = calls h @ [dec] @ incs"
    by (simp add: calls_rebuild incs_def dec_def)
  have "refcount r (calls h @ incs @ [dec]) x = refcount r (calls h @ [dec] @ incs) x"
    by (simp add: incs_def dec_def refcount_append)
  then show ?thesis by (simp only: a b)
qed

lemma refcount_self_assign: "refcount r (calls (assign p p h)) x = refcount r (calls h) x"
proof (cases "ptrs h (Var p) = 0")
  case True
  then show ?thesis by (simp add: calls_assign refcount_decref_null)
next
  case False
  then show ?thesis
    using refcount_incref_decref [of r "calls h" "ptrs h (Var p)" x]
    by (simp add: calls_assign)
qed

text \<open>
  Claim C9. For a \<open>counted_ptr\<close> \<open>p\<close> that holds the pointer \<open>q = get p h\<close>:
  \<open>p.release()\<close> returns \<open>q\<close> and leaves \<open>p\<close> empty (\<open>p.get() == 0\<close>, \<open>bool(p)\<close> false,
  \<open>!p\<close> true) and changes no other \<open>counted_ptr\<close>; \<open>release\<close> calls neither \<open>incref\<close> nor
  \<open>decref\<close>, so every reference count is what it was; destroying \<open>p\<close> afterwards makes one
  call, \<open>decref\<close> of the null pointer, and again the reference count of every object, the one
  at \<open>q\<close> included, is what it was before \<open>release\<close>: the reference \<open>p\<close> held is now the
  caller's.
\<close>

theorem counted_ptr_release:
  "fst (release p h) = get p h
   \<and> get p (snd (release p h)) = 0
   \<and> \<not> to_bool p (snd (release p h))
   \<and> op_not p (snd (release p h))
   \<and> ptrs (snd (release p h)) = (ptrs h)(p := 0)
   \<and> calls_since h (snd (release p h)) = []
   \<and> refcount r (calls (snd (release p h))) x = refcount r (calls h) x
   \<and> calls_since h (destroy p (snd (release p h))) = [Decref 0]
   \<and> refcount r (calls (destroy p (snd (release p h)))) x = refcount r (calls h) x"
proof -
  let ?h' = "snd (release p h)"
  have h': "?h' = h\<lparr>ptrs := (ptrs h)(p := 0)\<rparr>" by (simp add: release_eq)
  have returned: "fst (release p h) = get p h" by (simp add: release_eq get_def)
  have empty: "ptrs ?h' p = 0" by (simp add: h')
  have no_call: "calls ?h' = calls h" by (simp add: h')
  have destroyed: "calls (destroy p ?h') = calls h @ [Decref 0]"
    by (simp add: calls_destroy empty no_call)
  have "refcount r (calls (destroy p ?h')) x = refcount r (calls h) x"
    unfolding destroyed by (rule refcount_decref_null)
  with returned empty no_call destroyed h' show ?thesis
    by (simp add: get_def to_bool_def op_not_def calls_since_def)
qed

theorem counted_ptr_release_witness:
  "fst (release (Var 0) two_owners) = 5
   \<and> get (Var 0) (snd (release (Var 0) two_owners)) = 0
   \<and> \<not> to_bool (Var 0) (snd (release (Var 0) two_owners))
   \<and> get (Var 1) (snd (release (Var 0) two_owners)) = 7
   \<and> calls_since two_owners (destroy (Var 0) (snd (release (Var 0) two_owners))) = [Decref 0]
   \<and> refcount 1 (calls (destroy (Var 0) (snd (release (Var 0) two_owners)))) 5 = 1"
  using counted_ptr_release [of "Var 0" two_owners 1 5]
  by (simp add: two_owners_def get_def)

text \<open>
  Claim C10. After \<open>p = q\<close> both objects hold the pointer \<open>q\<close> held before (so
  \<open>p.get() == q.get()\<close>), and no other named \<open>counted_ptr\<close> changes. The assignment calls
  \<open>incref\<close> on \<open>q\<close>'s pointer (unless it is null) and then \<open>decref\<close> on the pointer \<open>p\<close> held.
  The reference count of every object \<open>x\<close> afterwards, from any count \<open>r\<close> before, is the one
  reached by destroying \<open>p\<close> and constructing it again from \<open>q\<close>'s pointer, and \<open>p\<close> holds the
  same pointer in both. For the self-assignment \<open>p = p\<close> the stored pointer and every reference
  count are unchanged.
\<close>

theorem counted_ptr_assign:
  "get (Var p) (assign p q h) = get (Var q) (assign p q h)
   \<and> get (Var q) (assign p q h) = get (Var q) h
   \<and> (\<forall>v. get (Var v) (assign p q h) = (if v = p then get (Var q) h else get (Var v) h))
   \<and> calls_since h (assign p q h) =
       (if get (Var q) h \<noteq> 0 then [Incref (get (Var q) h)] else []) @ [Decref (get (Var p) h)]
   \<and> refcount r (calls (assign p q h)) x =
       refcount r (calls (construct (Var p) (get (Var q) h) True (destroy (Var p) h))) x
   \<and> get (Var p) (assign p q h) =
       get (Var p) (construct (Var p) (get (Var q) h) True (destroy (Var p) h))
   \<and> get (Var p) (assign p p h) = get (Var p) h
   \<and> refcount r (calls (assign p p h)) x = refcount r (calls h) x"
proof -
  have same: "get (Var p) (assign p q h) = get (Var q) (assign p q h)"
    and kept: "get (Var q) (assign p q h) = get (Var q) h"
    and others: "\<forall>v. get (Var v) (assign p q h) = (if v = p then get (Var q) h else get (Var v) h)"
    and self: "get (Var p) (assign p p h) = get (Var p) h"
    by (simp_all add: get_def ptrs_assign)
  have made: "calls_since h (assign p q h) =
       (if get (Var q) h \<noteq> 0 then [Incref (get (Var q) h)] else []) @ [Decref (get (Var p) h)]"
    by (simp add: calls_since_def calls_assign get_def)
  have rebuilt: "refcount r (calls (assign p q h)) x =
       refcount r (calls (construct (Var p) (get (Var q) h) True (destroy (Var p) h))) x"
    unfolding get_def by (rule refcount_assign_rebuild)
  have rebuilt_ptr: "get (Var p) (assign p q h) =
       get (Var p) (construct (Var p) (get (Var q) h) True (destroy (Var p) h))"
    by (simp add: get_def ptrs_assign ptrs_construct)
  have self_count: "refcount r (calls (assign p p h)) x = refcount r (calls h) x"
    by (rule refcount_self_assign)
  from same kept others made rebuilt rebuilt_ptr self self_count show ?thesis
    by (intro conjI)
qed

theorem counted_ptr_assign_witness:
  "get (Var 0) (assign 0 1 two_owners) = 7
   \<and> get (Var 1) (assign 0 1 two_owners) = 7
   \<and> calls_since two_owners (assign 0 1 two_owners) = [Incref 7, Decref 5]
   \<and> refcount 1 (calls (assign 0 1 two_owners)) 7 = 2
   \<and> refcount 1 (calls (assign 0 1 two_owners)) 5 = 0
   \<and> get (Var 0) (assign 0 0 two_owners) = 5
   \<and> refcount 1 (calls (assign 0 0 two_owners)) 5 = 1"
  using counted_ptr_assign [of 0 1 two_owners 1 7] counted_ptr_assign [of 0 1 two_owners 1 5]
    counted_ptr_assign [of 0 0 two_owners 1 5]
  by (simp add: two_owners_def get_def destroy_def construct_def decref_def incref_def)

section \<open>Properties of the channel allocation\<close>

subsection \<open>The smallest unused channel\<close>

lemma find_app:
  "find P (xs @ ys) = (case find P xs of None \<Rightarrow> find P ys | Some x \<Rightarrow> Some x)"
  by (induction xs) simp_all

lemma find_upt_least:
  "find P [0 ..< k] = (if \<exists>n<k. P n then Some (LEAST n. P n) else None)"
proof (induction k)
  case 0
  then show ?case by simp
next
  case (Suc k)
  show ?case
  proof (cases "\<exists>n<k. P n")
    case True
    then have "\<exists>n<Suc k. P n" by (meson less_Suc_eq)
    with True Suc show ?thesis by (simp add: find_app)
  next
    case False
    show ?thesis
    proof (cases "P k")
      case True
      have "(LEAST n. P n) = k"
      proof (rule Least_equality)
        show "P k" by fact
        fix y assume "P y"
        with False show "k \<le> y" by (meson not_le)
      qed
      moreover have "\<exists>n<Suc k. P n" using True by blast
      ultimately show ?thesis using False Suc True by (simp add: find_app)
    next
      case nPk: False
      have "\<not> (\<exists>n<Suc k. P n)" using False nPk by (auto simp: less_Suc_eq)
      then show ?thesis using False Suc nPk by (simp add: find_app)
    qed
  qed
qed

lemma ex_unused: "\<exists>n::nat. n \<notin> set xs"
proof -
  have "infinite (UNIV :: nat set)" by simp
  then show ?thesis using ex_new_if_finite [of "set xs"] by simp
qed

lemma least_unused: "(LEAST n::nat. n \<notin> set xs) \<notin> set xs"
  using ex_unused [of xs] by (metis (mono_tags, lifting) LeastI_ex)

lemma below_least_used: "m < (LEAST n::nat. n \<notin> set xs) \<Longrightarrow> m \<in> set xs"
  using not_less_Least by blast

lemma find_unused:
  "find (\<lambda>n. n \<notin> set xs) [0 ..< Suc m] =
     (if (LEAST n. n \<notin> set xs) \<le> m then Some (LEAST n. n \<notin> set xs) else None)"
proof -
  have "(\<exists>n<Suc m. n \<notin> set xs) = ((LEAST n. n \<notin> set xs) \<le> m)"
  proof
    assume "\<exists>n<Suc m. n \<notin> set xs"
    then obtain n where "n < Suc m" "n \<notin> set xs" by blast
    then have "(LEAST n. n \<notin> set xs) \<le> n" by (simp add: Least_le)
    with \<open>n < Suc m\<close> show "(LEAST n. n \<notin> set xs) \<le> m" by simp
  next
    assume "(LEAST n. n \<notin> set xs) \<le> m"
    then show "\<exists>n<Suc m. n \<notin> set xs" using least_unused [of xs] by (meson le_imp_less_Suc)
  qed
  then show ?thesis by (simp only: find_upt_least)
qed

lemma create_session_least:
  "create_session c =
     (if (LEAST n. n \<notin> set (used_channels c)) \<le> channel_max c
      then Inr ((LEAST n. n \<notin> set (used_channels c)),
                c\<lparr>sessions := sessions c @
                     [\<lparr>channel = (LEAST n. n \<notin> set (used_channels c)),
                       s_local = UNINIT, s_remote = UNINIT\<rparr>]\<rparr>)
      else Inl ResourceLimitError)"
  unfolding create_session_def find_unused by simp

subsection \<open>Distinct channels are an invariant\<close>

lemma used_enqueue [simp]: "used_channels (enqueue f c) = used_channels c"
  by (simp add: enqueue_def used_channels_def)

lemma used_emit [simp]: "used_channels (emit e c) = used_channels c"
  by (simp add: emit_def used_channels_def)

lemma used_c_local [simp]: "used_channels (c\<lparr>c_local := st\<rparr>) = used_channels c"
  by (simp add: used_channels_def)

lemma used_c_remote [simp]: "used_channels (c\<lparr>c_remote := st\<rparr>) = used_channels c"
  by (simp add: used_channels_def)

lemma used_protocol_error [simp]: "used_channels (protocol_error c) = used_channels c"
  by (simp add: protocol_error_def)

lemma used_map_local [simp]:
  "used_channels (map_session ch (\<lambda>s. s\<lparr>s_local := st\<rparr>) c) = used_channels c"
  by (simp add: used_channels_def map_session_def comp_def if_distrib [of channel] cong: if_cong)

lemma used_map_remote [simp]:
  "used_channels (map_session ch (\<lambda>s. s\<lparr>s_remote := st\<rparr>) c) = used_channels c"
  by (simp add: used_channels_def map_session_def comp_def if_distrib [of channel] cong: if_cong)

lemma distinct_erase_closed:
  "distinct (used_channels c) \<Longrightarrow> distinct (used_channels (erase_closed c))"
  by (simp add: used_channels_def erase_closed_def distinct_map_filter)

lemma distinct_create_session:
  "distinct (used_channels c) \<Longrightarrow> create_session c = Inr (ch, c') \<Longrightarrow> distinct (used_channels c')"
  using least_unused [of "used_channels c"]
  by (auto simp: create_session_least used_channels_def split: if_splits)

lemma distinct_session_open:
  "distinct (used_channels c) \<Longrightarrow> session_open ch c = Inr c' \<Longrightarrow> distinct (used_channels c')"
  by (auto simp: session_open_def split: option.splits prod.splits bool.splits)

lemma distinct_session_close:
  "distinct (used_channels c) \<Longrightarrow> session_close ch c = Inr c' \<Longrightarrow> distinct (used_channels c')"
  by (auto simp: session_close_def intro!: distinct_erase_closed
      split: option.splits prod.splits bool.splits sum.splits)

lemma distinct_remote_begin:
  "distinct (used_channels c) \<Longrightarrow> distinct (used_channels (remote_begin ch c))"
  by (auto simp: remote_begin_def split: option.splits)

lemma distinct_remote_end:
  "distinct (used_channels c) \<Longrightarrow> distinct (used_channels (remote_end ch c))"
  by (auto simp: remote_end_def intro!: distinct_erase_closed split: option.splits)

lemma distinct_close_or_skip:
  "distinct (used_channels c) \<Longrightarrow> distinct (used_channels (close_or_skip c ch))"
  by (auto simp: close_or_skip_def dest: distinct_session_close split: sum.splits)

lemma distinct_foldl_close:
  "distinct (used_channels c) \<Longrightarrow> distinct (used_channels (foldl close_or_skip c chs))"
  by (induction chs arbitrary: c) (simp_all add: distinct_close_or_skip)

lemma distinct_conn_close:
  "distinct (used_channels c) \<Longrightarrow> conn_close c = Inr c' \<Longrightarrow> distinct (used_channels c')"
  using distinct_foldl_close [of c "used_channels c"]
  by (auto simp: conn_close_def cascade_close_def split: sum.splits prod.splits bool.splits)

lemma distinct_conn_open:
  "distinct (used_channels c) \<Longrightarrow> distinct (used_channels (conn_open c))"
  by (auto simp: conn_open_def split: prod.splits bool.splits)

lemma distinct_conn_remote_open:
  "distinct (used_channels c) \<Longrightarrow> distinct (used_channels (conn_remote_open c))"
  by (auto simp: conn_remote_open_def split: option.splits)

lemma distinct_conn_remote_close:
  "distinct (used_channels c) \<Longrightarrow> distinct (used_channels (conn_remote_close c))"
  by (auto simp: conn_remote_close_def split: option.splits)

lemma distinct_step:
  assumes "distinct (used_channels c)"
  shows "distinct (used_channels (step c x))"
proof (cases x)
  case Conn_open
  then show ?thesis using assms by (simp add: step_def distinct_conn_open)
next
  case Conn_close
  then show ?thesis using assms
    by (auto simp: step_def dest: distinct_conn_close split: sum.splits)
next
  case Conn_remote_open
  then show ?thesis using assms by (simp add: step_def distinct_conn_remote_open)
next
  case Conn_remote_close
  then show ?thesis using assms by (simp add: step_def distinct_conn_remote_close)
next
  case Create_session
  then show ?thesis using assms
    by (auto simp: step_def dest: distinct_create_session split: sum.splits)
next
  case (Session_open ch)
  then show ?thesis using assms
    by (auto simp: step_def dest: distinct_session_open split: sum.splits)
next
  case (Session_close ch)
  then show ?thesis using assms
    by (auto simp: step_def dest: distinct_session_close split: sum.splits)
next
  case (Remote_begin ch)
  then show ?thesis using assms by (simp add: step_def distinct_remote_begin)
next
  case (Remote_end ch)
  then show ?thesis using assms by (simp add: step_def distinct_remote_end)
qed

lemma distinct_run:
  "distinct (used_channels c) \<Longrightarrow> distinct (used_channels (run xs c))"
  unfolding run_def by (induction xs arbitrary: c) (simp_all add: distinct_step)

lemma distinct_reachable: "distinct (used_channels (run xs (new_connection cmax)))"
  by (rule distinct_run) (simp add: used_channels_def new_connection_def)

subsection \<open>A fully closed session frees its channel\<close>

lemma find_session_unique:
  "distinct (map channel xs) \<Longrightarrow> find (\<lambda>s. channel s = ch) xs = Some s \<Longrightarrow>
   t \<in> set xs \<Longrightarrow> channel t = ch \<Longrightarrow> t = s"
proof (induction xs)
  case Nil
  then show ?case by simp
next
  case (Cons a xs)
  show ?case
  proof (cases "channel a = ch")
    case True
    with Cons.prems have "s = a" by simp
    moreover have "t = a"
    proof (rule ccontr)
      assume "t \<noteq> a"
      with Cons.prems(3) have "t \<in> set xs" by simp
      then have "channel t \<in> channel ` set xs" by blast
      with Cons.prems(1,4) True show False by simp
    qed
    ultimately show ?thesis by simp
  next
    case False
    with Cons show ?thesis by auto
  qed
qed

lemma sessions_enqueue: "sessions (enqueue f c) = sessions c"
  by (simp add: enqueue_def)

lemma sessions_emit: "sessions (emit e c) = sessions c"
  by (simp add: emit_def)

lemma channel_free_after_map:
  assumes d: "distinct (map channel xs)" and f: "find (\<lambda>s. channel s = ch) xs = Some s"
    and g: "fully_closed (g s)" and ch: "\<And>t. channel (g t) = channel t"
  shows "ch \<notin> channel ` set (filter (\<lambda>s. \<not> fully_closed s)
            (map (\<lambda>s. if channel s = ch then g s else s) xs))"
proof
  assume "ch \<in> channel ` set (filter (\<lambda>s. \<not> fully_closed s)
            (map (\<lambda>s. if channel s = ch then g s else s) xs))"
  then obtain u where u: "u \<in> set (map (\<lambda>s. if channel s = ch then g s else s) xs)"
    and nf: "\<not> fully_closed u" and cu: "channel u = ch"
    by auto
  from u obtain t where t: "t \<in> set xs" and ut: "u = (if channel t = ch then g t else t)"
    by auto
  from cu ut ch have kt: "channel t = ch" by (simp split: if_splits)
  with d f t have "t = s" by (rule find_session_unique)
  with ut kt g nf show False by simp
qed

lemma channel_free_after_close:
  assumes "distinct (used_channels c)" and "find_session ch c = Some s"
    and "s_local s = ACTIVE" and "s_remote s = CLOSED"
  shows "\<exists>c'. session_close ch c = Inr c' \<and> ch \<notin> set (used_channels c')"
proof -
  let ?c' = "erase_closed (enqueue (ch, P_end) (map_session ch (\<lambda>s. s\<lparr>s_local := CLOSED\<rparr>) c))"
  have eq: "session_close ch c = Inr ?c'"
    using assms(2,3) by (simp add: session_close_def)
  have "used_channels ?c' = map channel (filter (\<lambda>s. \<not> fully_closed s)
            (map (\<lambda>s. if channel s = ch then s\<lparr>s_local := CLOSED\<rparr> else s) (sessions c)))"
    by (simp add: used_channels_def erase_closed_def sessions_enqueue map_session_def)
  moreover have "ch \<notin> channel ` set (filter (\<lambda>s. \<not> fully_closed s)
            (map (\<lambda>s. if channel s = ch then s\<lparr>s_local := CLOSED\<rparr> else s) (sessions c)))"
    using assms by (intro channel_free_after_map [where s = s])
      (simp_all add: used_channels_def find_session_def fully_closed_def)
  ultimately have "ch \<notin> set (used_channels ?c')" by simp
  with eq show ?thesis by blast
qed

lemma channel_free_after_remote_end:
  assumes "distinct (used_channels c)" and "find_session ch c = Some s"
    and "s_local s = CLOSED" and "s_remote s = ACTIVE"
  shows "ch \<notin> set (used_channels (remote_end ch c))"
proof -
  let ?c' = "erase_closed (emit (Endpoint_state_changed (Session_entity ch) CLOSED)
              (map_session ch (\<lambda>s. s\<lparr>s_remote := CLOSED\<rparr>) c))"
  have eq: "remote_end ch c = ?c'"
    using assms(2,4) by (simp add: remote_end_def)
  have "used_channels ?c' = map channel (filter (\<lambda>s. \<not> fully_closed s)
            (map (\<lambda>s. if channel s = ch then s\<lparr>s_remote := CLOSED\<rparr> else s) (sessions c)))"
    by (simp add: used_channels_def erase_closed_def sessions_emit map_session_def)
  moreover have "ch \<notin> channel ` set (filter (\<lambda>s. \<not> fully_closed s)
            (map (\<lambda>s. if channel s = ch then s\<lparr>s_remote := CLOSED\<rparr> else s) (sessions c)))"
    using assms by (intro channel_free_after_map [where s = s])
      (simp_all add: used_channels_def find_session_def fully_closed_def)
  ultimately have "ch \<notin> set (used_channels ?c')" by simp
  with eq show ?thesis by simp
qed

subsection \<open>The scenario of the spec\<close>

lemma create_session_first:
  assumes "0 \<notin> set (used_channels c)"
  shows "create_session c =
     Inr (0, c\<lparr>sessions := sessions c @ [\<lparr>channel = 0, s_local = UNINIT, s_remote = UNINIT\<rparr>]\<rparr>)"
proof -
  have "(LEAST n. n \<notin> set (used_channels c)) = 0"
    using assms by (intro Least_equality) simp_all
  then show ?thesis by (simp add: create_session_least)
qed

lemma create_session_second:
  assumes "0 \<in> set (used_channels c)" and "Suc 0 \<notin> set (used_channels c)"
    and "1 \<le> channel_max c"
  shows "create_session c =
     Inr (1, c\<lparr>sessions := sessions c @ [\<lparr>channel = 1, s_local = UNINIT, s_remote = UNINIT\<rparr>]\<rparr>)"
proof -
  have "(LEAST n. n \<notin> set (used_channels c)) = Suc 0"
  proof (rule Least_equality)
    show "Suc 0 \<notin> set (used_channels c)" by fact
    fix y assume "y \<notin> set (used_channels c)"
    with assms(1) have "y \<noteq> 0" by (metis)
    then show "Suc 0 \<le> y" by simp
  qed
  then show ?thesis using assms(3) by (simp add: create_session_least)
qed

lemma sessions_map_session:
  "sessions (map_session ch f c) = map (\<lambda>s. if channel s = ch then f s else s) (sessions c)"
  by (simp add: map_session_def)

lemma sessions_erase_closed:
  "sessions (erase_closed c) = filter (\<lambda>s. \<not> fully_closed s) (sessions c)"
  by (simp add: erase_closed_def)

lemma channel_max_enqueue: "channel_max (enqueue f c) = channel_max c"
  by (simp add: enqueue_def)

lemma channel_max_emit: "channel_max (emit e c) = channel_max c"
  by (simp add: emit_def)

lemma channel_max_map_session: "channel_max (map_session ch f c) = channel_max c"
  by (simp add: map_session_def)

lemma channel_max_erase_closed: "channel_max (erase_closed c) = channel_max c"
  by (simp add: erase_closed_def)

lemmas table_simps = sessions_enqueue sessions_emit sessions_map_session sessions_erase_closed
  channel_max_enqueue channel_max_emit channel_max_map_session channel_max_erase_closed

lemma two_sessions_then_reuse:
  assumes e: "sessions c0 = []" and m: "1 \<le> channel_max c0"
  shows "\<exists>c1 c2 c3 c4 c5.
           create_session c0 = Inr (0, c1)
         \<and> create_session c1 = Inr (1, c2)
         \<and> used_channels c2 = [0, 1]
         \<and> session_open 0 c2 = Inr c3
         \<and> session_close 0 (remote_begin 0 c3) = Inr c4
         \<and> used_channels c4 = [0, 1]
         \<and> used_channels (remote_end 0 c4) = [1]
         \<and> create_session (remote_end 0 c4) = Inr (0, c5)
         \<and> used_channels c5 = [1, 0]"
proof -
  let ?s0 = "\<lparr>channel = 0, s_local = UNINIT, s_remote = UNINIT\<rparr>"
  let ?s1 = "\<lparr>channel = 1, s_local = UNINIT, s_remote = UNINIT\<rparr>"
  define c1 where "c1 = c0\<lparr>sessions := sessions c0 @ [?s0]\<rparr>"
  define c2 where "c2 = c1\<lparr>sessions := sessions c1 @ [?s1]\<rparr>"
  define c3 where "c3 = enqueue (0, P_begin) (map_session 0 (\<lambda>s. s\<lparr>s_local := ACTIVE\<rparr>) c2)"
  define c3r where "c3r = emit (Endpoint_state_changed (Session_entity 0) ACTIVE)
                (map_session 0 (\<lambda>s. s\<lparr>s_remote := ACTIVE\<rparr>) c3)"
  define c4 where "c4 = erase_closed (enqueue (0, P_end)
                (map_session 0 (\<lambda>s. s\<lparr>s_local := CLOSED\<rparr>) c3r))"
  define c4r where "c4r = erase_closed (emit (Endpoint_state_changed (Session_entity 0) CLOSED)
                (map_session 0 (\<lambda>s. s\<lparr>s_remote := CLOSED\<rparr>) c4))"
  define c5 where "c5 = c4r\<lparr>sessions := sessions c4r @ [?s0]\<rparr>"
  have s1: "sessions c1 = [?s0]" and m1: "1 \<le> channel_max c1"
    using e m by (simp_all add: c1_def)
  have s2: "sessions c2 = [?s0, ?s1]"
    by (simp add: c2_def s1)
  have s3: "sessions c3 = [\<lparr>channel = 0, s_local = ACTIVE, s_remote = UNINIT\<rparr>, ?s1]"
    by (simp add: c3_def table_simps s2)
  have s3r: "sessions c3r = [\<lparr>channel = 0, s_local = ACTIVE, s_remote = ACTIVE\<rparr>, ?s1]"
    by (simp add: c3r_def table_simps s3)
  have s4: "sessions c4 = [\<lparr>channel = 0, s_local = CLOSED, s_remote = ACTIVE\<rparr>, ?s1]"
    by (simp add: c4_def table_simps s3r fully_closed_def)
  have s4r: "sessions c4r = [?s1]"
    by (simp add: c4r_def table_simps s4 fully_closed_def)
  have a1: "create_session c0 = Inr (0, c1)"
    unfolding c1_def using e by (intro create_session_first) (simp add: used_channels_def)
  have a2: "create_session c1 = Inr (1, c2)"
    unfolding c2_def using m1 by (intro create_session_second) (simp_all add: used_channels_def s1)
  have a3: "session_open 0 c2 = Inr c3"
    by (simp add: session_open_def find_session_def s2 c3_def)
  have a4: "remote_begin 0 c3 = c3r"
    by (simp add: remote_begin_def find_session_def s3 c3r_def)
  have a5: "session_close 0 c3r = Inr c4"
    by (simp add: session_close_def find_session_def s3r c4_def)
  have a6: "remote_end 0 c4 = c4r"
    by (simp add: remote_end_def find_session_def s4 c4r_def)
  have a7: "create_session c4r = Inr (0, c5)"
    unfolding c5_def by (intro create_session_first) (simp add: used_channels_def s4r)
  have u2: "used_channels c2 = [0, 1]" by (simp add: used_channels_def s2)
  have u4: "used_channels c4 = [0, 1]" by (simp add: used_channels_def s4)
  have u4r: "used_channels c4r = [1]" by (simp add: used_channels_def s4r)
  have u5: "used_channels c5 = [1, 0]" by (simp add: used_channels_def c5_def s4r)
  from a1 a2 u2 a3 a5 [folded a4] u4 u4r [folded a6] a7 [folded a6] u5
  show ?thesis by blast
qed

lemma remote_ended_eq: "remote_ended = \<lparr>c_local = UNINIT, c_remote = UNINIT,
    sessions = [\<lparr>channel = 0, s_local = ACTIVE, s_remote = CLOSED\<rparr>,
                \<lparr>channel = 1, s_local = UNINIT, s_remote = UNINIT\<rparr>],
    outbound = [(0, P_begin)],
    events = [Endpoint_state_changed (Session_entity 0) ACTIVE,
              Endpoint_state_changed (Session_entity 0) CLOSED],
    channel_max = 1\<rparr>"
  unfolding remote_ended_def by code_simp

lemma locally_closed_eq: "locally_closed = \<lparr>c_local = UNINIT, c_remote = UNINIT,
    sessions = [\<lparr>channel = 0, s_local = CLOSED, s_remote = ACTIVE\<rparr>,
                \<lparr>channel = 1, s_local = UNINIT, s_remote = UNINIT\<rparr>],
    outbound = [(0, P_begin), (0, P_end)],
    events = [Endpoint_state_changed (Session_entity 0) ACTIVE],
    channel_max = 1\<rparr>"
  unfolding locally_closed_def by code_simp

text \<open>
  Claim C5. (1) In every state a new connection reaches by any sequence of operations, and in
  every state reached from a state with pairwise distinct channels, the channel numbers of the
  sessions of the table (the sessions that are not fully closed) are pairwise distinct.
  (2) \<open>create_session\<close> allocates the least natural number that is the channel of no session
  of the table, and fails with \<open>ResourceLimitError\<close> exactly when that number is above
  channel-max; so a channel it returns is unused, every smaller number is used, and the new
  session is added to the table under it. (3) On a new connection with channel-max at least 1, two calls of
  \<open>create_session\<close> return the channels 0 and 1; when session 0 is then opened, begun by the
  peer, closed and ended by the peer, it is fully closed and leaves the table, and the next
  \<open>create_session\<close> returns channel 0 again. (4) In general, the local close of a session
  whose peer has ended it, and the peer's end of a session that is closed locally, leave its
  channel unused.
\<close>

theorem channel_allocation:
  "distinct (used_channels (run xs (new_connection cmax)))
   \<and> (distinct (used_channels c) \<longrightarrow> distinct (used_channels (run xs c)))
   \<and> create_session c =
       (if (LEAST n. n \<notin> set (used_channels c)) \<le> channel_max c
        then Inr ((LEAST n. n \<notin> set (used_channels c)),
                  c\<lparr>sessions := sessions c @
                       [\<lparr>channel = (LEAST n. n \<notin> set (used_channels c)),
                         s_local = UNINIT, s_remote = UNINIT\<rparr>]\<rparr>)
        else Inl ResourceLimitError)
   \<and> (create_session c = Inr (k, c') \<longrightarrow>
        k \<notin> set (used_channels c) \<and> (\<forall>m<k. m \<in> set (used_channels c))
        \<and> k \<le> channel_max c \<and> used_channels c' = used_channels c @ [k])
   \<and> (sessions fresh = [] \<and> 1 \<le> channel_max fresh \<longrightarrow>
        (\<exists>c1 c2 c3 c4 c5.
           create_session fresh = Inr (0, c1)
         \<and> create_session c1 = Inr (1, c2)
         \<and> used_channels c2 = [0, 1]
         \<and> session_open 0 c2 = Inr c3
         \<and> session_close 0 (remote_begin 0 c3) = Inr c4
         \<and> used_channels c4 = [0, 1]
         \<and> used_channels (remote_end 0 c4) = [1]
         \<and> create_session (remote_end 0 c4) = Inr (0, c5)
         \<and> used_channels c5 = [1, 0]))
   \<and> (distinct (used_channels c) \<and> find_session ch c = Some s
        \<and> s_local s = ACTIVE \<and> s_remote s = CLOSED \<longrightarrow>
        (\<exists>c'. session_close ch c = Inr c' \<and> ch \<notin> set (used_channels c')))
   \<and> (distinct (used_channels c) \<and> find_session ch c = Some s
        \<and> s_local s = CLOSED \<and> s_remote s = ACTIVE \<longrightarrow>
        ch \<notin> set (used_channels (remote_end ch c)))"
proof (intro conjI impI)
  show "distinct (used_channels (run xs (new_connection cmax)))"
    by (rule distinct_reachable)
next
  assume "distinct (used_channels c)"
  then show "distinct (used_channels (run xs c))" by (rule distinct_run)
next
  show "create_session c =
       (if (LEAST n. n \<notin> set (used_channels c)) \<le> channel_max c
        then Inr ((LEAST n. n \<notin> set (used_channels c)),
                  c\<lparr>sessions := sessions c @
                       [\<lparr>channel = (LEAST n. n \<notin> set (used_channels c)),
                         s_local = UNINIT, s_remote = UNINIT\<rparr>]\<rparr>)
        else Inl ResourceLimitError)"
    by (rule create_session_least)
next
  assume ok: "create_session c = Inr (k, c')"
  then have k: "k = (LEAST n. n \<notin> set (used_channels c))" and le: "k \<le> channel_max c"
    and c': "c' = c\<lparr>sessions := sessions c @
                     [\<lparr>channel = k, s_local = UNINIT, s_remote = UNINIT\<rparr>]\<rparr>"
    by (auto simp: create_session_least split: if_splits)
  show "k \<notin> set (used_channels c)" unfolding k by (rule least_unused)
  show "\<forall>m<k. m \<in> set (used_channels c)" unfolding k using below_least_used by blast
  show "k \<le> channel_max c" by (rule le)
  show "used_channels c' = used_channels c @ [k]" by (simp add: c' used_channels_def)
next
  assume "sessions fresh = [] \<and> 1 \<le> channel_max fresh"
  then show "\<exists>c1 c2 c3 c4 c5.
           create_session fresh = Inr (0, c1)
         \<and> create_session c1 = Inr (1, c2)
         \<and> used_channels c2 = [0, 1]
         \<and> session_open 0 c2 = Inr c3
         \<and> session_close 0 (remote_begin 0 c3) = Inr c4
         \<and> used_channels c4 = [0, 1]
         \<and> used_channels (remote_end 0 c4) = [1]
         \<and> create_session (remote_end 0 c4) = Inr (0, c5)
         \<and> used_channels c5 = [1, 0]"
    using two_sessions_then_reuse by blast
next
  assume "distinct (used_channels c) \<and> find_session ch c = Some s
        \<and> s_local s = ACTIVE \<and> s_remote s = CLOSED"
  then show "\<exists>c'. session_close ch c = Inr c' \<and> ch \<notin> set (used_channels c')"
    using channel_free_after_close by blast
next
  assume "distinct (used_channels c) \<and> find_session ch c = Some s
        \<and> s_local s = CLOSED \<and> s_remote s = ACTIVE"
  then show "ch \<notin> set (used_channels (remote_end ch c))"
    using channel_free_after_remote_end by blast
qed

theorem channel_allocation_witness:
  "distinct (used_channels (run [Create_session, Create_session, Session_open 0, Remote_begin 0,
       Session_close 0, Remote_end 0, Create_session] (new_connection 1)))
   \<and> sessions (new_connection 1) = []
   \<and> 1 \<le> channel_max (new_connection 1)
   \<and> (\<exists>c1 c2 c3 c4 c5.
           create_session (new_connection 1) = Inr (0, c1)
         \<and> create_session c1 = Inr (1, c2)
         \<and> used_channels c2 = [0, 1]
         \<and> session_open 0 c2 = Inr c3
         \<and> session_close 0 (remote_begin 0 c3) = Inr c4
         \<and> used_channels c4 = [0, 1]
         \<and> used_channels (remote_end 0 c4) = [1]
         \<and> create_session (remote_end 0 c4) = Inr (0, c5)
         \<and> used_channels c5 = [1, 0])
   \<and> create_session (remote_end 0 locally_closed) = Inr (0, reused)
   \<and> 0 \<notin> set (used_channels (remote_end 0 locally_closed))
   \<and> (0::nat) \<le> channel_max (remote_end 0 locally_closed)
   \<and> used_channels reused = [1, 0]
   \<and> distinct (used_channels remote_ended)
   \<and> find_session 0 remote_ended = Some \<lparr>channel = 0, s_local = ACTIVE, s_remote = CLOSED\<rparr>
   \<and> (\<exists>c'. session_close 0 remote_ended = Inr c' \<and> 0 \<notin> set (used_channels c'))
   \<and> distinct (used_channels locally_closed)
   \<and> find_session 0 locally_closed = Some \<lparr>channel = 0, s_local = CLOSED, s_remote = ACTIVE\<rparr>
   \<and> 0 \<notin> set (used_channels (remote_end 0 locally_closed))"
proof -
  have a1: "distinct (used_channels remote_ended)"
    by (simp add: remote_ended_eq used_channels_def)
  have a2: "find_session 0 remote_ended = Some \<lparr>channel = 0, s_local = ACTIVE, s_remote = CLOSED\<rparr>"
    by (simp add: remote_ended_eq find_session_def)
  have b1: "distinct (used_channels locally_closed)"
    by (simp add: locally_closed_eq used_channels_def)
  have b2: "find_session 0 locally_closed = Some \<lparr>channel = 0, s_local = CLOSED, s_remote = ACTIVE\<rparr>"
    by (simp add: locally_closed_eq find_session_def)
  have c1: "create_session (remote_end 0 locally_closed) = Inr (0, reused)"
    unfolding locally_closed_eq reused_def by code_simp
  have c2: "used_channels (remote_end 0 locally_closed) = [1]"
    unfolding locally_closed_eq by code_simp
  note A = channel_allocation [where xs = "[Create_session, Create_session, Session_open 0,
       Remote_begin 0, Session_close 0, Remote_end 0, Create_session]" and cmax = 1 and fresh = "new_connection 1"
       and c = remote_ended and ch = 0
       and s = "\<lparr>channel = 0, s_local = ACTIVE, s_remote = CLOSED\<rparr>"
       and k = 0 and c' = reused]
  note B = channel_allocation [where xs = "[]" and cmax = 1
       and c = locally_closed and ch = 0
       and s = "\<lparr>channel = 0, s_local = CLOSED, s_remote = ACTIVE\<rparr>"
       and k = 0 and c' = reused]
  note C = channel_allocation [where xs = "[]" and cmax = 1
       and c = "remote_end 0 locally_closed" and ch = 0
       and s = "\<lparr>channel = 0, s_local = CLOSED, s_remote = ACTIVE\<rparr>"
       and k = 0 and c' = reused]
  have a3: "s_local \<lparr>channel = 0, s_local = ACTIVE, s_remote = CLOSED\<rparr> = ACTIVE
      \<and> s_remote \<lparr>channel = 0, s_local = ACTIVE, s_remote = CLOSED\<rparr> = CLOSED"
    by simp
  have b3: "s_local \<lparr>channel = 0, s_local = CLOSED, s_remote = ACTIVE\<rparr> = CLOSED
      \<and> s_remote \<lparr>channel = 0, s_local = CLOSED, s_remote = ACTIVE\<rparr> = ACTIVE"
    by simp
  have one: "sessions (new_connection 1) = [] \<and> 1 \<le> channel_max (new_connection 1)"
    by (simp add: new_connection_def)
  from A have r1: "distinct (used_channels (run [Create_session, Create_session, Session_open 0,
       Remote_begin 0, Session_close 0, Remote_end 0, Create_session] (new_connection 1)))"
    by blast
  from A one have r2: "\<exists>c1 c2 c3 c4 c5.
           create_session (new_connection 1) = Inr (0, c1)
         \<and> create_session c1 = Inr (1, c2)
         \<and> used_channels c2 = [0, 1]
         \<and> session_open 0 c2 = Inr c3
         \<and> session_close 0 (remote_begin 0 c3) = Inr c4
         \<and> used_channels c4 = [0, 1]
         \<and> used_channels (remote_end 0 c4) = [1]
         \<and> create_session (remote_end 0 c4) = Inr (0, c5)
         \<and> used_channels c5 = [1, 0]"
    by blast
  from C c1 have r3: "0 \<notin> set (used_channels (remote_end 0 locally_closed))
      \<and> 0 \<le> channel_max (remote_end 0 locally_closed)
      \<and> used_channels reused = used_channels (remote_end 0 locally_closed) @ [0]"
    by blast
  from A a1 a2 a3
  have r4: "\<exists>c'. session_close 0 remote_ended = Inr c' \<and> 0 \<notin> set (used_channels c')"
    by blast
  from B b1 b2 b3 have r5: "0 \<notin> set (used_channels (remote_end 0 locally_closed))"
    by blast
  from r3 c2 have r6: "used_channels reused = [1, 0]" by simp
  from one r1 r2 r3 r4 r5 r6 a1 a2 b1 b2 c1 show ?thesis by blast
qed

end
